theory Spec2Isabelle
  imports Complex_Main "HOL-Library.Word"
begin

section \<open>Text, bytes and exceptions\<close>

text \<open>
  A Python \<^verbatim>\<open>str\<close> is a sequence of Unicode code points; it is modelled as a list of
  natural numbers, one per code point, so that slicing, \<^verbatim>\<open>strip\<close> and the non-ASCII
  literals of the source count what Python counts. \<open>u\<close> turns an ASCII literal into such
  a text. \<^verbatim>\<open>bytes\<close> are lists of 8-bit words.
\<close>

type_synonym pystr = "nat list"

type_synonym bytes = "8 word list"

definition u :: "string \<Rightarrow> pystr" where
  "u s = map of_char s"

text \<open>
  \<^verbatim>\<open>str.lower\<close>: the letters A to Z are mapped to a to z. The case mapping of letters
  outside ASCII is not modelled (they are left as they are).
\<close>

definition lower_cp :: "nat \<Rightarrow> nat" where
  "lower_cp c = (if 65 \<le> c \<and> c \<le> 90 then c + 32 else c)"

definition lower :: "pystr \<Rightarrow> pystr" where
  "lower s = map lower_cp s"

text \<open>\<^verbatim>\<open>str.isspace\<close> on one code point: the code points Python's \<^verbatim>\<open>strip()\<close> removes.\<close>

definition is_space :: "nat \<Rightarrow> bool" where
  "is_space c \<longleftrightarrow>
     (9 \<le> c \<and> c \<le> 13) \<or> (28 \<le> c \<and> c \<le> 32) \<or> c = 133 \<or> c = 160 \<or> c = 5760 \<or>
     (8192 \<le> c \<and> c \<le> 8202) \<or> c = 8232 \<or> c = 8233 \<or> c = 8239 \<or> c = 8287 \<or> c = 12288"

definition strip :: "pystr \<Rightarrow> pystr" where
  "strip s = rev (dropWhile is_space (rev (dropWhile is_space s)))"

definition startswith :: "pystr \<Rightarrow> pystr \<Rightarrow> bool" where
  "startswith s p \<longleftrightarrow> take (length p) s = p"

definition endswith :: "pystr \<Rightarrow> pystr \<Rightarrow> bool" where
  "endswith s x \<longleftrightarrow> length x \<le> length s \<and> drop (length s - length x) s = x"

text \<open>\<^verbatim>\<open>sub in s\<close> on strings: \<open>sub\<close> occurs in \<open>s\<close> as a contiguous piece.\<close>

fun py_in :: "pystr \<Rightarrow> pystr \<Rightarrow> bool" where
  "py_in sub [] = (sub = [])"
| "py_in sub (c # cs) = (startswith (c # cs) sub \<or> py_in sub cs)"

text \<open>
  The exceptions the modelled operations raise. All of them are subclasses of
  \<^verbatim>\<open>Exception\<close>; an interrupt (\<^verbatim>\<open>KeyboardInterrupt\<close>) is not an event of the model.
\<close>

datatype exn =
    OSError
  | UnicodeDecodeError
  | LookupError
  | ImportError
  | AttributeError
  | ValueError
  | LibraryError

section \<open>Paths (\<^verbatim>\<open>os.path\<close>, POSIX flavour)\<close>

definition sep :: nat where
  "sep = 47"

definition extsep :: nat where
  "extsep = 46"

text \<open>\<^verbatim>\<open>os.path.join(a, b)\<close> for two components.\<close>

definition join :: "pystr \<Rightarrow> pystr \<Rightarrow> pystr" where
  "join a b =
     (if startswith b [sep] then b
      else if a = [] \<or> endswith a [sep] then a @ b
      else a @ [sep] @ b)"

text \<open>\<^verbatim>\<open>os.path.basename\<close>: what follows the last separator.\<close>

definition basename :: "pystr \<Rightarrow> pystr" where
  "basename p = rev (takeWhile (\<lambda>c. c \<noteq> sep) (rev p))"

text \<open>
  \<^verbatim>\<open>os.path.dirname\<close>: what precedes the base name, without its trailing separators
  unless it consists of separators only.
\<close>

definition dirname :: "pystr \<Rightarrow> pystr" where
  "dirname p =
     (let head = take (length p - length (basename p)) p
      in if head \<noteq> [] \<and> (\<exists>c \<in> set head. c \<noteq> sep)
         then rev (dropWhile (\<lambda>c. c = sep) (rev head)) else head)"

text \<open>
  \<^verbatim>\<open>os.path.splitext(p)[0]\<close>: the path without its extension. The extension starts at
  the last dot of the base name, and a base name made of leading dots only up to that dot
  has no extension.
\<close>

definition splitext_root :: "pystr \<Rightarrow> pystr" where
  "splitext_root p =
     (let base = basename p;
          ext = rev (takeWhile (\<lambda>c. c \<noteq> extsep) (rev base));
          stem = take (length base - length ext - 1) base
      in if extsep \<in> set base \<and> (\<exists>c \<in> set stem. c \<noteq> extsep)
         then take (length p - length ext - 1) p else p)"

text \<open>
  \<^verbatim>\<open>os.path.relpath(root, start)\<close> for a \<open>root\<close> that the directory walk reached from
  \<open>start\<close>, that is \<open>start\<close> itself or \<open>start\<close> followed by further components.
\<close>

definition relpath :: "pystr \<Rightarrow> pystr \<Rightarrow> pystr" where
  "relpath rootdir start =
     (if rootdir = start then u ''.''
      else dropWhile (\<lambda>c. c = sep) (drop (length start) rootdir))"

section \<open>The document tree of the markup parser\<close>

text \<open>
  What \<^verbatim>\<open>BeautifulSoup\<close> hands to the converter: text nodes, comments, and tags
  with a name, attributes and children. The parsed document itself is a tag.
\<close>

datatype node =
    NavigableString pystr
  | Comment pystr
  | Tag (tag_name: pystr) (tag_attrs: "(pystr \<times> pystr) list") (tag_contents: "node list")

fun node_name :: "node \<Rightarrow> pystr option" where
  "node_name (Tag n a cs) = Some n"
| "node_name _ = None"

fun children :: "node \<Rightarrow> node list" where
  "children (Tag n a cs) = cs"
| "children _ = []"

text \<open>\<^verbatim>\<open>element.get(key, default)\<close>.\<close>

fun get_attr :: "node \<Rightarrow> pystr \<Rightarrow> pystr \<Rightarrow> pystr" where
  "get_attr (Tag n a cs) k d = (case map_of a k of Some v \<Rightarrow> v | None \<Rightarrow> d)"
| "get_attr _ k d = d"

text \<open>All nodes below a node, in document order.\<close>

fun descendants :: "node \<Rightarrow> node list" where
  "descendants (Tag n a cs) = concat (map (\<lambda>c. c # descendants c) cs)"
| "descendants _ = []"

definition is_named :: "pystr list \<Rightarrow> node \<Rightarrow> bool" where
  "is_named names x = (case node_name x of Some n \<Rightarrow> n \<in> set names | None \<Rightarrow> False)"

text \<open>\<^verbatim>\<open>element.find_all(names)\<close> and \<^verbatim>\<open>element.find_all(names, recursive=False)\<close>.\<close>

definition find_all :: "pystr list \<Rightarrow> node \<Rightarrow> node list" where
  "find_all names x = filter (is_named names) (descendants x)"

definition find_all_direct :: "pystr list \<Rightarrow> node \<Rightarrow> node list" where
  "find_all_direct names x = filter (is_named names) (children x)"

text \<open>
  \<^verbatim>\<open>element.get_text(strip=True)\<close>: the text nodes below the element (comments are
  left out), each stripped, the empty ones dropped, concatenated.
\<close>

fun node_string :: "node \<Rightarrow> pystr list" where
  "node_string (NavigableString s) = (if strip s = [] then [] else [strip s])"
| "node_string _ = []"

definition get_text_strip :: "node \<Rightarrow> pystr" where
  "get_text_strip x = concat (concat (map node_string (descendants x)))"

text \<open>\<^verbatim>\<open>for t in soup(names): t.decompose()\<close>: the named tags leave the tree.\<close>

fun decompose_all :: "pystr list \<Rightarrow> node \<Rightarrow> node" where
  "decompose_all names (Tag n a cs) =
     Tag n a (filter (\<lambda>c. \<not> is_named names c) (map (decompose_all names) cs))"
| "decompose_all names x = x"

section \<open>The word-processor document\<close>

text \<open>
  The part of a \<^verbatim>\<open>python-docx\<close> document the converter writes: a sequence of blocks,
  each a paragraph (style, alignment, runs) or a table (a grid of cell texts). Fonts
  are not modelled.
\<close>

record run =
  run_text :: pystr
  run_bold :: bool
  run_italic :: bool
  run_underline :: bool
  run_color :: "pystr option"
  run_picture :: "pystr option"
  run_break :: bool

record docx_paragraph =
  par_style :: pystr
  par_alignment :: "nat option"
  par_runs :: "run list"

datatype block = Para docx_paragraph | Tbl "pystr list list"

type_synonym document = "block list"

definition new_run :: "pystr \<Rightarrow> run" where
  "new_run t = \<lparr>run_text = t, run_bold = False, run_italic = False, run_underline = False,
                run_color = None, run_picture = None, run_break = False\<rparr>"

text \<open>\<^verbatim>\<open>doc.add_paragraph(text, style)\<close>: a run is made only for a non-empty text.\<close>

definition new_paragraph :: "pystr \<Rightarrow> pystr \<Rightarrow> docx_paragraph" where
  "new_paragraph t style =
     \<lparr>par_style = style, par_alignment = None, par_runs = (if t = [] then [] else [new_run t])\<rparr>"

definition add_paragraph :: "pystr \<Rightarrow> pystr \<Rightarrow> document \<Rightarrow> document" where
  "add_paragraph t style doc = doc @ [Para (new_paragraph t style)]"

text \<open>
  A paragraph object is a reference into the document: the index of its block.
  \<^verbatim>\<open>paragraph.add_run(...)\<close> appends a run to that block.
\<close>

definition para_add_run :: "nat \<Rightarrow> run \<Rightarrow> document \<Rightarrow> document" where
  "para_add_run i r doc =
     (if i < length doc then
        (case doc ! i of
           Para p \<Rightarrow> doc[i := Para (p\<lparr>par_runs := par_runs p @ [r]\<rparr>)]
         | Tbl t \<Rightarrow> doc)
      else doc)"

definition para_set_alignment :: "nat \<Rightarrow> nat \<Rightarrow> document \<Rightarrow> document" where
  "para_set_alignment i a doc =
     (if i < length doc then
        (case doc ! i of
           Para p \<Rightarrow> doc[i := Para (p\<lparr>par_alignment := Some a\<rparr>)]
         | Tbl t \<Rightarrow> doc)
      else doc)"

fun is_para :: "block \<Rightarrow> bool" where
  "is_para (Para p) = True"
| "is_para (Tbl t) = False"

text \<open>\<^verbatim>\<open>doc.paragraphs\<close>: the paragraph blocks, here by their indices.\<close>

definition paragraphs :: "document \<Rightarrow> nat list" where
  "paragraphs doc = filter (\<lambda>i. is_para (doc ! i)) [0..<length doc]"

section \<open>The environment\<close>

text \<open>
  Everything outside the program: the files and directories it reads, the codecs, the
  encoding detector, the markup parser and the document library's calls that can fail.
  Each is a function of the environment, so that a theorem about the program holds for
  every file system and every behaviour of the libraries. \<open>Inl\<close> is a raised exception.
\<close>

text \<open>
  What the \<^verbatim>\<open>try\<close> around \<^verbatim>\<open>add_heading\<close> and the styling of its runs can do: finish,
  raise before the heading is in the document, or raise after.
\<close>

datatype heading_outcome = Added | NotAdded | AddedThenRaised

record env =
  open_rb :: "pystr \<Rightarrow> exn + bytes"
  decode :: "pystr \<Rightarrow> bool \<Rightarrow> bytes \<Rightarrow> exn + pystr"
  chardet_import :: "exn option"
  chardet_detect :: "bytes \<Rightarrow> pystr option \<times> real"
  path_exists :: "pystr \<Rightarrow> bool"
  path_isdir :: "pystr \<Rightarrow> bool"
  listdir :: "pystr \<Rightarrow> exn + pystr list"
  walk :: "pystr \<Rightarrow> (pystr \<times> pystr list \<times> pystr list) list"
  makedirs :: "pystr \<Rightarrow> exn option"
  parse_html :: "pystr \<Rightarrow> exn + node"
  add_heading_outcome :: "pystr \<Rightarrow> nat \<Rightarrow> heading_outcome"
  add_picture :: "pystr \<Rightarrow> exn option"
  set_rgb :: "pystr \<Rightarrow> exn option"
  save :: "document \<Rightarrow> pystr \<Rightarrow> exn + (pystr \<Rightarrow> nat option)"

text \<open>
  \<open>open_rb env p\<close> is the content of file \<open>p\<close>, or the exception opening or reading it
  raises. \<open>decode env enc strict bs\<close> decodes bytes with the codec \<open>enc\<close>, strictly or
  with \<^verbatim>\<open>errors='ignore'\<close>; an unknown codec is a \<open>LookupError\<close>. \<open>save env doc p\<close> writes
  the document and gives the sizes of the files that exist afterwards.
\<close>

section \<open>Encoding detection\<close>

text \<open>The ladder of \<open>detect_encoding\<close>: the first codec that decodes the sample strictly.\<close>

fun first_decodable :: "env \<Rightarrow> bytes \<Rightarrow> pystr list \<Rightarrow> pystr" where
  "first_decodable e raw_data [] = u ''utf-8''"
| "first_decodable e raw_data (encoding # rest) =
     (case decode e encoding True raw_data of
        Inr t \<Rightarrow> encoding
      | Inl x \<Rightarrow> first_decodable e raw_data rest)"

definition fallback_encodings :: "pystr list" where
  "fallback_encodings = [u ''utf-8'', u ''gbk'', u ''gb18030'', u ''big5'']"

text \<open>The body of \<open>detect_encoding\<close>, inside its outer \<^verbatim>\<open>try\<close>.\<close>

definition detect_encoding_body :: "env \<Rightarrow> pystr \<Rightarrow> exn + pystr" where
  "detect_encoding_body e file_path =
     (case chardet_import e of
        Some x \<Rightarrow> Inl x
      | None \<Rightarrow>
          (case open_rb e file_path of
             Inl x \<Rightarrow> Inl x
           | Inr content \<Rightarrow>
               (let raw_data = take 10000 content;
                    result = chardet_detect e raw_data
                in if snd result > 0.7 then
                     (case fst result of
                        None \<Rightarrow> Inl AttributeError
                      | Some enc \<Rightarrow>
                          (let encoding = lower enc
                           in if encoding = u ''gb2312'' then Inr (u ''gb18030'')
                              else Inr encoding))
                   else Inr (first_decodable e raw_data fallback_encodings))))"

text \<open>The bare \<^verbatim>\<open>except\<close> around the body returns \<^verbatim>\<open>'utf-8'\<close>.\<close>

definition detect_encoding :: "env \<Rightarrow> pystr \<Rightarrow> pystr" where
  "detect_encoding e file_path =
     (case detect_encoding_body e file_path of Inl x \<Rightarrow> u ''utf-8'' | Inr enc \<Rightarrow> enc)"

section \<open>Reading a file\<close>

text \<open>\<^verbatim>\<open>open(path, 'r', encoding=enc[, errors='ignore']).read()\<close>.\<close>

definition read_text :: "env \<Rightarrow> pystr \<Rightarrow> pystr \<Rightarrow> bool \<Rightarrow> exn + pystr" where
  "read_text e file_path enc strict =
     (case open_rb e file_path of Inl x \<Rightarrow> Inl x | Inr content \<Rightarrow> decode e enc strict content)"

definition bom :: nat where
  "bom = 65279"

definition strip_bom :: "pystr \<Rightarrow> pystr" where
  "strip_bom content = (if startswith content [bom] then drop 1 content else content)"

text \<open>The loop over the legacy encodings; when none reads, the raw bytes are decoded.\<close>

fun read_fallbacks :: "env \<Rightarrow> pystr \<Rightarrow> pystr list \<Rightarrow> exn + pystr" where
  "read_fallbacks e file_path [] =
     (case open_rb e file_path of
        Inl x \<Rightarrow> Inl x
      | Inr content \<Rightarrow> decode e (u ''utf-8'') False content)"
| "read_fallbacks e file_path (enc # rest) =
     (case read_text e file_path enc False of
        Inr content \<Rightarrow> Inr content
      | Inl x \<Rightarrow> read_fallbacks e file_path rest)"

definition legacy_encodings :: "pystr list" where
  "legacy_encodings = [u ''gbk'', u ''gb18030'', u ''big5'', u ''utf-16'', u ''latin-1'']"

text \<open>
  The body of \<open>read_html_file\<close>: only a \<open>UnicodeDecodeError\<close> of the first attempt leads
  to the next one, any other exception there leaves the body.
\<close>

definition read_html_file_body :: "env \<Rightarrow> pystr \<Rightarrow> exn + pystr" where
  "read_html_file_body e file_path =
     (case read_text e file_path (u ''utf-8'') True of
        Inr content \<Rightarrow> Inr (strip_bom content)
      | Inl x \<Rightarrow>
          (if x \<noteq> UnicodeDecodeError then Inl x
           else
             (case read_text e file_path (detect_encoding e file_path) False of
                Inr content \<Rightarrow> Inr (strip_bom content)
              | Inl y \<Rightarrow> read_fallbacks e file_path legacy_encodings)))"

definition read_html_file :: "env \<Rightarrow> pystr \<Rightarrow> pystr" where
  "read_html_file e file_path =
     (case read_html_file_body e file_path of Inl x \<Rightarrow> [] | Inr content \<Rightarrow> content)"

section \<open>The asset folder of an HTML file\<close>

definition possible_names :: "pystr \<Rightarrow> pystr list" where
  "possible_names html_name =
     [html_name @ u ''_files'', html_name @ u ''.files'', html_name,
      u ''files'', u ''images'', u ''image'', u ''img'']"

text \<open>The first loop of \<open>find_associated_files_folder\<close>, over the conventional names.\<close>

fun first_existing_dir :: "env \<Rightarrow> pystr \<Rightarrow> pystr list \<Rightarrow> pystr option" where
  "first_existing_dir e html_dir [] = None"
| "first_existing_dir e html_dir (name # rest) =
     (let folder_path = join html_dir name
      in if path_exists e folder_path \<and> path_isdir e folder_path then Some folder_path
         else first_existing_dir e html_dir rest)"

text \<open>
  The second loop, over the entries of the parent directory. The entry's name is
  lowercased for both tests; \<open>html_name\<close> is used as it is.
\<close>

fun similar_folder :: "env \<Rightarrow> pystr \<Rightarrow> pystr \<Rightarrow> pystr list \<Rightarrow> pystr option" where
  "similar_folder e html_dir html_name [] = None"
| "similar_folder e html_dir html_name (item # rest) =
     (let item_path = join html_dir item
      in if path_isdir e item_path \<and>
            (py_in html_name (lower item) \<and>
             (py_in (u ''file'') (lower item) \<or> py_in (u ''image'') (lower item)))
         then Some item_path
         else similar_folder e html_dir html_name rest)"

text \<open>\<open>find_associated_files_folder\<close> has no handler: a failing \<^verbatim>\<open>os.listdir\<close> raises.\<close>

definition find_associated_files_folder :: "env \<Rightarrow> pystr \<Rightarrow> exn + pystr option" where
  "find_associated_files_folder e html_path =
     (let html_dir = dirname html_path;
          html_name = splitext_root (basename html_path)
      in case first_existing_dir e html_dir (possible_names html_name) of
           Some folder_path \<Rightarrow> Inr (Some folder_path)
         | None \<Rightarrow>
             (case listdir e html_dir of
                Inl x \<Rightarrow> Inl x
              | Inr items \<Rightarrow> Inr (similar_folder e html_dir html_name items)))"

section \<open>Inserting an image\<close>

definition not_found_label :: pystr where
  "not_found_label = [91, 22270, 29255, 26410, 25214, 21040, 58, 32]"

definition failed_label :: pystr where
  "failed_label = [91, 22270, 29255, 58, 32]"

text \<open>
  The two labels are the source's \<^verbatim>\<open>"[<image not found>: "\<close> and \<^verbatim>\<open>"[<image>: "\<close>
  prefixes, written in Chinese there; both placeholders end with a closing bracket.
\<close>

definition placeholder :: "pystr \<Rightarrow> pystr \<Rightarrow> pystr" where
  "placeholder label alt_text = label @ alt_text @ u '']''"

text \<open>The files below the asset folder whose name is the image's, also up to case.\<close>

definition walk_matches :: "env \<Rightarrow> pystr \<Rightarrow> pystr \<Rightarrow> pystr list" where
  "walk_matches e files_folder img_name =
     concat (map (\<lambda>(r, dirs, files).
        map (join r) (filter (\<lambda>file. file = img_name \<or> lower file = lower img_name) files))
        (walk e files_folder))"

fun first_existing :: "env \<Rightarrow> pystr list \<Rightarrow> pystr option" where
  "first_existing e [] = None"
| "first_existing e (path # rest) =
     (if path_exists e path then Some path else first_existing e rest)"

text \<open>Truth value of an optional string: \<^verbatim>\<open>None\<close> and \<^verbatim>\<open>''\<close> are false.\<close>

fun truthy :: "pystr option \<Rightarrow> bool" where
  "truthy None = False"
| "truthy (Some s) = (s \<noteq> [])"

definition locate_image :: "env \<Rightarrow> pystr \<Rightarrow> pystr \<Rightarrow> pystr \<Rightarrow> pystr option \<Rightarrow> pystr option" where
  "locate_image e html_path clean_src img_name files_folder =
     (let html_dir = dirname html_path;
          img_path =
            (case files_folder of
               None \<Rightarrow> None
             | Some ff \<Rightarrow>
                 if ff \<noteq> [] \<and> path_exists e ff
                 then first_existing e
                        ([join ff img_name, join ff clean_src] @ walk_matches e ff img_name)
                 else None)
      in if truthy img_path then img_path
         else (if path_exists e (join html_dir clean_src)
               then Some (join html_dir clean_src) else None))"

definition picture_run :: "pystr \<Rightarrow> run" where
  "picture_run img_path = (new_run [])\<lparr>run_picture := Some img_path\<rparr>"

text \<open>
  The \<^verbatim>\<open>try\<close> that embeds the picture and its handler. When \<^verbatim>\<open>add_picture\<close> raises,
  the run (and the centred paragraph) made for it are already in the document.
\<close>

definition embed_image :: "env \<Rightarrow> pystr \<Rightarrow> pystr \<Rightarrow> document \<Rightarrow> nat option \<Rightarrow> document" where
  "embed_image e img_path alt_text doc paragraph =
     (case paragraph of
        Some i \<Rightarrow>
          (case add_picture e img_path of
             None \<Rightarrow> para_add_run i (picture_run img_path) doc
           | Some x \<Rightarrow>
               para_add_run i (new_run (placeholder failed_label alt_text))
                 (para_add_run i (new_run []) doc))
      | None \<Rightarrow>
          (let i = length doc;
               doc1 = para_set_alignment i 1 (add_paragraph [] [] doc)
           in case add_picture e img_path of
                None \<Rightarrow> para_add_run i (picture_run img_path) doc1
              | Some x \<Rightarrow>
                  add_paragraph (placeholder failed_label alt_text) []
                    (para_add_run i (new_run []) doc1)))"

definition missing_image :: "pystr \<Rightarrow> document \<Rightarrow> nat option \<Rightarrow> document" where
  "missing_image alt_text doc paragraph =
     (case paragraph of
        Some i \<Rightarrow> para_add_run i (new_run (placeholder not_found_label alt_text)) doc
      | None \<Rightarrow> add_paragraph (placeholder not_found_label alt_text) [] doc)"

text \<open>\<^verbatim>\<open>src.split('?')[0].split('#')[0]\<close>: the source up to its query and fragment.\<close>

definition clean :: "pystr \<Rightarrow> pystr" where
  "clean src = takeWhile (\<lambda>c. c \<noteq> 35) (takeWhile (\<lambda>c. c \<noteq> 63) src)"

text \<open>
  \<open>_insert_image\<close>. Its outer handler catches every exception and returns; the only
  call of the body that raises in this model, \<^verbatim>\<open>add_picture\<close>, has its own handler, so
  the function returns the document in every case.
\<close>

definition insert_image ::
  "env \<Rightarrow> node \<Rightarrow> document \<Rightarrow> pystr \<Rightarrow> pystr option \<Rightarrow> nat option \<Rightarrow> document" where
  "insert_image e img_element doc html_path files_folder paragraph =
     (let src = get_attr img_element (u ''src'') []
      in if src = [] \<or> startswith src (u ''data:'') then doc
         else
           (let clean_src = clean src;
                img_name = basename clean_src
            in if img_name = [] then doc
               else
                 (let img_path = locate_image e html_path clean_src img_name files_folder;
                      alt_text = get_attr img_element (u ''alt'') img_name
                  in case img_path of
                       Some ip \<Rightarrow>
                         if ip \<noteq> [] \<and> path_exists e ip
                         then embed_image e ip alt_text doc paragraph
                         else missing_image alt_text doc paragraph
                     | None \<Rightarrow> missing_image alt_text doc paragraph)))"

section \<open>Converting one file\<close>

subsection \<open>Paragraphs\<close>

text \<open>
  One pass of the loop over the children of a \<^verbatim>\<open>p\<close> element. The state is the document
  and the variable \<open>text\<close>, which the branch for string children assigns. Assigning the
  string \<^verbatim>\<open>'0000FF'\<close> to the colour of a run goes through the library's setter
  (\<open>set_rgb\<close>), which may refuse it.
\<close>

definition p_child ::
  "env \<Rightarrow> pystr \<Rightarrow> pystr option \<Rightarrow> nat \<Rightarrow> node \<Rightarrow> document \<times> pystr \<Rightarrow> exn + document \<times> pystr" where
  "p_child e html_path files_folder para child s =
     (let doc = fst s; text = snd s
      in if node_name child = Some (u ''img'')
         then Inr (insert_image e child doc html_path files_folder (Some para), text)
         else if node_name child = Some (u ''b'') \<or> node_name child = Some (u ''strong'')
         then Inr (para_add_run para ((new_run (get_text_strip child))\<lparr>run_bold := True\<rparr>) doc, text)
         else if node_name child = Some (u ''i'') \<or> node_name child = Some (u ''em'')
         then Inr (para_add_run para ((new_run (get_text_strip child))\<lparr>run_italic := True\<rparr>) doc, text)
         else if node_name child = Some (u ''u'')
         then Inr (para_add_run para ((new_run (get_text_strip child))\<lparr>run_underline := True\<rparr>) doc, text)
         else if node_name child = Some (u ''a'')
         then (case set_rgb e (u ''0000FF'') of
                 Some x \<Rightarrow> Inl x
               | None \<Rightarrow>
                   Inr (para_add_run para
                          ((new_run (get_text_strip child))
                             \<lparr>run_underline := True, run_color := Some (u ''0000FF'')\<rparr>) doc, text))
         else (case child of
                 NavigableString str \<Rightarrow>
                   Inr (if strip str \<noteq> [] then para_add_run para (new_run (strip str)) doc else doc,
                        strip str)
               | Comment str \<Rightarrow>
                   Inr (if strip str \<noteq> [] then para_add_run para (new_run (strip str)) doc else doc,
                        strip str)
               | Tag n a cs \<Rightarrow> Inr (doc, text)))"

fun p_children ::
  "env \<Rightarrow> pystr \<Rightarrow> pystr option \<Rightarrow> nat \<Rightarrow> node list \<Rightarrow> document \<times> pystr \<Rightarrow> exn + document \<times> pystr" where
  "p_children e html_path files_folder para [] s = Inr s"
| "p_children e html_path files_folder para (child # rest) s =
     (case p_child e html_path files_folder para child s of
        Inl x \<Rightarrow> Inl x
      | Inr s' \<Rightarrow> p_children e html_path files_folder para rest s')"

text \<open>
  The branch for \<^verbatim>\<open>p\<close>. The loop has no \<^verbatim>\<open>break\<close>, so its \<^verbatim>\<open>else\<close> runs whenever the
  loop ends: one more run, with the value \<open>text\<close> has then.
\<close>

definition convert_p :: "env \<Rightarrow> pystr \<Rightarrow> pystr option \<Rightarrow> node \<Rightarrow> document \<Rightarrow> exn + document" where
  "convert_p e html_path files_folder element doc =
     (let text = get_text_strip element
      in if text \<noteq> [] then
           (let para = length doc;
                doc1 = add_paragraph [] [] doc
            in case p_children e html_path files_folder para (children element) (doc1, text) of
                 Inl x \<Rightarrow> Inl x
               | Inr s \<Rightarrow> Inr (para_add_run para (new_run (snd s)) (fst s)))
         else Inr doc)"

subsection \<open>Headings, lists, tables, line breaks\<close>

definition convert_heading ::
  "(pystr \<Rightarrow> nat \<Rightarrow> heading_outcome) \<Rightarrow> node \<Rightarrow> document \<Rightarrow> document" where
  "convert_heading heading element doc =
     (let level = (tag_name element ! 1) - 48;
          text = get_text_strip element;
          styled = add_paragraph text (u ''Heading '' @ [48 + min level 6]) doc;
          plain = add_paragraph ([26631, 39064] @ [48 + level] @ u '': '' @ text) []
      in if text \<noteq> [] then
           (case heading text (min level 6) of
              Added \<Rightarrow> styled
            | NotAdded \<Rightarrow> plain doc
            | AddedThenRaised \<Rightarrow> plain styled)
         else doc)"

fun add_list_items :: "pystr \<Rightarrow> node list \<Rightarrow> document \<Rightarrow> document" where
  "add_list_items style [] doc = doc"
| "add_list_items style (li # rest) doc =
     (let text = get_text_strip li
      in add_list_items style rest
           (if text \<noteq> [] then para_add_run (length doc) (new_run text) (add_paragraph [] style doc)
            else doc))"

text \<open>
  The table: \<^verbatim>\<open>add_table(rows, cols)\<close> makes a grid of empty cells, and the two loops
  write the text of the \<open>j\<close>-th cell of the \<open>i\<close>-th row into cell \<open>(i, j)\<close>.
\<close>

definition add_table :: "nat \<Rightarrow> nat \<Rightarrow> pystr list list" where
  "add_table nrows ncols = replicate nrows (replicate ncols [])"

definition set_cell :: "pystr list list \<Rightarrow> nat \<Rightarrow> nat \<Rightarrow> pystr \<Rightarrow> pystr list list" where
  "set_cell t i j s = t[i := (t ! i)[j := s]]"

fun fill_cells :: "nat \<Rightarrow> nat \<Rightarrow> nat \<Rightarrow> node list \<Rightarrow> pystr list list \<Rightarrow> pystr list list" where
  "fill_cells max_cols i j [] t = t"
| "fill_cells max_cols i j (cell # cells) t =
     fill_cells max_cols i (Suc j) cells
       (if j < max_cols then set_cell t i j (get_text_strip cell) else t)"

definition row_cells :: "node \<Rightarrow> node list" where
  "row_cells r = find_all [u ''td'', u ''th''] r"

fun fill_rows :: "nat \<Rightarrow> nat \<Rightarrow> node list \<Rightarrow> pystr list list \<Rightarrow> pystr list list" where
  "fill_rows max_cols i [] t = t"
| "fill_rows max_cols i (r # rows) t =
     fill_rows max_cols (Suc i) rows (fill_cells max_cols i 0 (row_cells r) t)"

definition max_cols_of :: "node list \<Rightarrow> nat" where
  "max_cols_of rows = Max (set (map (\<lambda>r. length (row_cells r)) rows))"

definition convert_table :: "node \<Rightarrow> document \<Rightarrow> document" where
  "convert_table element doc =
     (let rows = find_all [u ''tr''] element
      in if rows \<noteq> [] then
           (let max_cols = max_cols_of rows
            in if max_cols > 0
               then doc @ [Tbl (fill_rows max_cols 0 rows (add_table (length rows) max_cols))]
               else doc)
         else doc)"

definition break_run :: run where
  "break_run = (new_run [])\<lparr>run_break := True\<rparr>"

definition convert_br :: "document \<Rightarrow> document" where
  "convert_br doc =
     (if paragraphs doc \<noteq> [] then para_add_run (last (paragraphs doc)) break_run doc else doc)"

subsection \<open>The loop over the elements\<close>

definition block_tags :: "pystr list" where
  "block_tags = [u ''h1'', u ''h2'', u ''h3'', u ''h4'', u ''h5'', u ''h6'', u ''p'', u ''div'',
                 u ''img'', u ''ul'', u ''ol'', u ''table'', u ''br'']"

definition process_element ::
  "env \<Rightarrow> pystr \<Rightarrow> pystr option \<Rightarrow> node \<Rightarrow> document \<Rightarrow> exn + document" where
  "process_element e html_path files_folder element doc =
     (let name = tag_name element
      in if startswith name (u ''h'') then Inr (convert_heading (add_heading_outcome e) element doc)
         else if name = u ''p'' then convert_p e html_path files_folder element doc
         else if name = u ''div'' then
           Inr (let text = get_text_strip element
                in if text \<noteq> [] then add_paragraph text [] doc else doc)
         else if name = u ''img'' then Inr (insert_image e element doc html_path files_folder None)
         else if name = u ''ul'' then
           Inr (add_list_items (u ''List Bullet'') (find_all_direct [u ''li''] element) doc)
         else if name = u ''ol'' then
           Inr (add_list_items (u ''List Number'') (find_all_direct [u ''li''] element) doc)
         else if name = u ''table'' then Inr (convert_table element doc)
         else if name = u ''br'' then Inr (convert_br doc)
         else Inr doc)"

fun process_elements ::
  "env \<Rightarrow> pystr \<Rightarrow> pystr option \<Rightarrow> node list \<Rightarrow> document \<Rightarrow> exn + document" where
  "process_elements e html_path files_folder [] doc = Inr doc"
| "process_elements e html_path files_folder (element # rest) doc =
     (case process_element e html_path files_folder element doc of
        Inl x \<Rightarrow> Inl x
      | Inr doc' \<Rightarrow> process_elements e html_path files_folder rest doc')"

subsection \<open>The fallback for an empty document\<close>

fun split_on :: "nat \<Rightarrow> pystr \<Rightarrow> pystr list" where
  "split_on c [] = [[]]"
| "split_on c (x # xs) =
     (if x = c then [] # split_on c xs
      else (case split_on c xs of w # ws \<Rightarrow> (x # w) # ws | [] \<Rightarrow> [[x]]))"

fun add_lines :: "pystr list \<Rightarrow> document \<Rightarrow> document" where
  "add_lines [] doc = doc"
| "add_lines (line # rest) doc =
     add_lines rest (if strip line \<noteq> [] then add_paragraph (take 500 (strip line)) [] doc else doc)"

definition fallback_text :: "node \<Rightarrow> document \<Rightarrow> document" where
  "fallback_text body doc =
     (if length (paragraphs doc) = 0 then
        (let body_text = get_text_strip body
         in if body_text \<noteq> [] then add_lines (take 20 (split_on 10 body_text)) doc else doc)
      else doc)"

subsection \<open>\<open>convert_html_to_word\<close>\<close>

text \<open>
  The document the converter builds for a file, before it is saved: \<open>Inr None\<close> when the
  content is empty (the function returns \<^verbatim>\<open>False\<close> at once), \<open>Inl\<close> when building raises.
  The imports, \<^verbatim>\<open>Document()\<close> and the setting of the fonts are taken to succeed.
\<close>

definition build_document :: "env \<Rightarrow> pystr \<Rightarrow> pystr option \<Rightarrow> exn + document option" where
  "build_document e html_path files_folder =
     (let html_content = read_html_file e html_path
      in if html_content = [] \<or> strip html_content = [] then Inr None
         else
           (case parse_html e html_content of
              Inl x \<Rightarrow> Inl x
            | Inr parsed \<Rightarrow>
                (let soup = decompose_all [u ''script'', u ''style''] parsed;
                     body = (case find_all [u ''body''] soup of [] \<Rightarrow> soup | b # bs \<Rightarrow> b)
                 in case process_elements e html_path files_folder (find_all block_tags body) [] of
                      Inl x \<Rightarrow> Inl x
                    | Inr doc \<Rightarrow> Inr (Some (fallback_text body doc)))))"

text \<open>Saving and the check of the saved file.\<close>

definition save_and_verify :: "env \<Rightarrow> document \<Rightarrow> pystr \<Rightarrow> exn + bool" where
  "save_and_verify e doc docx_path =
     (let output_dir = dirname docx_path
      in case (if \<not> path_exists e output_dir then makedirs e output_dir else None) of
           Some x \<Rightarrow> Inl x
         | None \<Rightarrow>
             (case save e doc docx_path of
                Inl x \<Rightarrow> Inl x
              | Inr files \<Rightarrow>
                  Inr (case files docx_path of Some n \<Rightarrow> n > 1024 | None \<Rightarrow> False)))"

definition convert_body :: "env \<Rightarrow> pystr \<Rightarrow> pystr \<Rightarrow> pystr option \<Rightarrow> exn + bool" where
  "convert_body e html_path docx_path files_folder =
     (case build_document e html_path files_folder of
        Inl x \<Rightarrow> Inl x
      | Inr None \<Rightarrow> Inr False
      | Inr (Some doc) \<Rightarrow> save_and_verify e doc docx_path)"

text \<open>The handler \<^verbatim>\<open>except Exception\<close> around the whole body returns \<^verbatim>\<open>False\<close>.\<close>

definition convert_html_to_word :: "env \<Rightarrow> pystr \<Rightarrow> pystr \<Rightarrow> pystr option \<Rightarrow> bool" where
  "convert_html_to_word e html_path docx_path files_folder =
     (case convert_body e html_path docx_path files_folder of Inl x \<Rightarrow> False | Inr ok \<Rightarrow> ok)"

section \<open>The run over a directory\<close>

record converter =
  total_files :: nat
  success_files :: nat
  failed_files :: "pystr list"
  output_dir :: "pystr option"






text \<open>
  The paths the loop body computes for one file, and the two calls that are not inside
  any handler: creating the output subdirectory and looking for the asset folder.
\<close>

definition docx_path_of :: "pystr \<Rightarrow> pystr \<Rightarrow> pystr \<Rightarrow> pystr \<Rightarrow> pystr" where
  "docx_path_of current_dir out rootdir file =
     (let rel = relpath rootdir current_dir;
          rel_path = (if rel = u ''.'' then [] else rel);
          output_subdir = join out rel_path
      in join output_subdir (splitext_root file @ u ''.docx''))"






section \<open>Vocabulary of the specification and example environments\<close>

text \<open>A codec decodes a sample strictly when decoding does not raise.\<close>

definition strictly_decodes :: "env \<Rightarrow> bytes \<Rightarrow> pystr \<Rightarrow> bool" where
  "strictly_decodes e raw_data enc =
     (case decode e enc True raw_data of Inr t \<Rightarrow> True | Inl x \<Rightarrow> False)"

text \<open>
  Best-effort reading as the specification describes it: a list of attempts in a fixed
  order, the first that succeeds gives the text, and the text is empty when none does.
\<close>

fun first_success :: "(exn + pystr) list \<Rightarrow> pystr" where
  "first_success [] = []"
| "first_success (Inr content # rest) = content"
| "first_success (Inl x # rest) = first_success rest"

definition read_attempts :: "env \<Rightarrow> pystr \<Rightarrow> (exn + pystr) list" where
  "read_attempts e p =
     [map_sum id strip_bom (read_text e p (u ''utf-8'') True),
      map_sum id strip_bom (read_text e p (detect_encoding e p) False)]
     @ map (\<lambda>enc. read_text e p enc False)
         [u ''gbk'', u ''gb18030'', u ''big5'', u ''utf-16'', u ''latin-1'']
     @ [read_text e p (u ''utf-8'') False]"

definition read_best_effort :: "env \<Rightarrow> pystr \<Rightarrow> pystr" where
  "read_best_effort e p = first_success (read_attempts e p)"

text \<open>
  An environment in which nothing exists and every library call either fails or does
  nothing; the examples below change it where they need something.
\<close>

definition env0 :: env where
  "env0 = \<lparr>open_rb = (\<lambda>p. Inl OSError), decode = (\<lambda>enc strict bs. Inl LookupError),
            chardet_import = None, chardet_detect = (\<lambda>bs. (None, 0)),
            path_exists = (\<lambda>p. False), path_isdir = (\<lambda>p. False), listdir = (\<lambda>p. Inr []),
            walk = (\<lambda>p. []), makedirs = (\<lambda>p. None), parse_html = (\<lambda>s. Inl ValueError),
            add_heading_outcome = (\<lambda>t l. Added), add_picture = (\<lambda>p. None),
            set_rgb = (\<lambda>c. None), save = (\<lambda>d p. Inl OSError)\<rparr>"

text \<open>A file the detector is sure about, and one it is not.\<close>

definition env_gb :: env where
  "env_gb = env0\<lparr>open_rb := (\<lambda>p. Inr [0xC4, 0xE3]),
                  chardet_detect := (\<lambda>bs. (Some (u ''GB2312''), 0.99))\<rparr>"

definition env_big5 :: env where
  "env_big5 = env0\<lparr>open_rb := (\<lambda>p. Inr [0xC4, 0xE3]),
      chardet_detect := (\<lambda>bs. (Some (u ''Big5''), 0.5)),
      decode := (\<lambda>enc strict bs.
         if enc = u ''utf-8'' then Inl UnicodeDecodeError else Inr [20320])\<rparr>"

text \<open>A file that is not UTF-8 and reads as GBK.\<close>

definition env_gbk_file :: env where
  "env_gbk_file = env0\<lparr>open_rb := (\<lambda>p. Inr [0xC4, 0xE3]),
      decode := (\<lambda>enc strict bs.
         if enc = u ''utf-8'' then (if strict then Inl UnicodeDecodeError else Inr [])
         else if enc = u ''gbk'' then Inr [20320]
         else Inl LookupError)\<rparr>"

text \<open>
  A directory \<^verbatim>\<open>/d\<close> with a page and a folder \<^verbatim>\<open>Report_images\<close> beside it.
\<close>

definition env_report :: env where
  "env_report = env0\<lparr>path_exists := (\<lambda>p. p = u ''/d/Report_images''),
      path_isdir := (\<lambda>p. p = u ''/d/Report_images''),
      listdir := (\<lambda>p. Inr [u ''Report.html'', u ''Report_images''])\<rparr>"

text \<open>The texts of a document, in order: those of its runs and of its table cells.\<close>

fun block_texts :: "block \<Rightarrow> pystr list" where
  "block_texts (Para p) = map run_text (par_runs p)"
| "block_texts (Tbl t) = concat t"

definition document_texts :: "document \<Rightarrow> pystr list" where
  "document_texts doc = concat (map block_texts doc)"

text \<open>Images without a usable source.\<close>

definition img_no_src :: node where
  "img_no_src = Tag (u ''img'') [(u ''alt'', u ''logo'')] []"

definition img_data :: node where
  "img_data = Tag (u ''img'') [(u ''src'', u ''data:image/png;base64,AAAA'')] []"

definition img_dir :: node where
  "img_dir = Tag (u ''img'') [(u ''src'', u ''images/?v=1'')] []"

text \<open>
  A row of the grid as the specification describes it: the texts of the row's cells,
  then blank cells up to the width of the grid.
\<close>

definition padded_row :: "nat \<Rightarrow> node \<Rightarrow> pystr list" where
  "padded_row max_cols r =
     map get_text_strip (row_cells r) @ replicate (max_cols - length (row_cells r)) []"

text \<open>A table with a row of two cells and a row of one.\<close>

definition td :: "string \<Rightarrow> node" where
  "td s = Tag (u ''td'') [] [NavigableString (u s)]"

definition tr_ab :: node where
  "tr_ab = Tag (u ''tr'') [] [td ''a'', td ''b'']"

definition tr_c :: node where
  "tr_c = Tag (u ''tr'') [] [td ''c'']"

definition table_abc :: node where
  "table_abc = Tag (u ''table'') [] [tr_ab, tr_c]"




text \<open>A paragraph \<^verbatim>\<open><p>Hello <b>World</b></p>\<close>, and one with a link.\<close>

definition p_hello :: node where
  "p_hello = Tag (u ''p'') []
     [NavigableString (u ''Hello ''), Tag (u ''b'') [] [NavigableString (u ''World'')]]"

definition p_link :: node where
  "p_link = Tag (u ''p'') [] [Tag (u ''a'') [] [NavigableString (u ''here'')]]"




definition job_path :: "pystr \<times> pystr \<Rightarrow> pystr" where
  "job_path j = join (fst j) (snd j)"

text \<open>
  The outcome of the conversion of a discovered file: what \<open>convert_html_to_word\<close> returns
  for the paths and the asset folder the loop body computes.
\<close>

definition converted :: "env \<Rightarrow> pystr \<Rightarrow> pystr \<Rightarrow> pystr \<times> pystr \<Rightarrow> bool" where
  "converted e current_dir out j =
     (case find_associated_files_folder e (job_path j) of
        Inr files_folder \<Rightarrow>
          convert_html_to_word e (job_path j) (docx_path_of current_dir out (fst j) (snd j))
            files_folder
      | Inl x \<Rightarrow> False)"


text \<open>The counters after a list of files has been handled, from a given state.\<close>

definition after_jobs :: "env \<Rightarrow> pystr \<Rightarrow> pystr \<Rightarrow> (pystr \<times> pystr) list \<Rightarrow> converter \<Rightarrow> converter" where
  "after_jobs e current_dir out jobs self =
     self\<lparr>total_files := total_files self + length jobs,
          success_files := success_files self + length (filter (converted e current_dir out) jobs),
          failed_files := failed_files self
             @ map job_path (filter (\<lambda>j. \<not> converted e current_dir out j) jobs)\<rparr>"











text \<open>Every text of the first document is a text of the second.\<close>

definition keeps_texts :: "document \<Rightarrow> document \<Rightarrow> bool" where
  "keeps_texts doc doc' \<longleftrightarrow> set (document_texts doc) \<subseteq> set (document_texts doc')"

section \<open>Encoding detection and reading: properties\<close>

lemma u_simps: "u [] = []" "u (c # cs) = of_char c # u cs"
  by (simp_all add: u_def)

lemma first_decodable_find:
  "first_decodable e raw encs =
     (case find (strictly_decodes e raw) encs of Some enc \<Rightarrow> enc | None \<Rightarrow> u ''utf-8'')"
  by (induction encs) (auto simp: strictly_decodes_def split: sum.splits)

text \<open>
  C7. \<open>detect_encoding\<close> takes the detector's answer only when its confidence is above
  0.7, and then returns the detected name in lower case, with \<^verbatim>\<open>gb2312\<close> replaced by
  \<^verbatim>\<open>gb18030\<close>. At or below 0.7 it returns the first of \<^verbatim>\<open>utf-8, gbk, gb18030, big5\<close>
  that decodes the sample (the first 10000 bytes) strictly, and \<^verbatim>\<open>utf-8\<close> when none
  does. An exception of its body never leaves it: the result is \<^verbatim>\<open>utf-8\<close> then.
\<close>

theorem detect_encoding_spec:
  "(chardet_import e = None \<and> open_rb e p = Inr content \<and>
      chardet_detect e (take 10000 content) = (Some enc, conf) \<and> conf > 0.7
      \<longrightarrow> detect_encoding e p = (if lower enc = u ''gb2312'' then u ''gb18030'' else lower enc))
   \<and> (chardet_import e = None \<and> open_rb e p = Inr content \<and>
      snd (chardet_detect e (take 10000 content)) \<le> 0.7
      \<longrightarrow> detect_encoding e p =
           (case find (strictly_decodes e (take 10000 content))
                   [u ''utf-8'', u ''gbk'', u ''gb18030'', u ''big5''] of
              Some enc \<Rightarrow> enc | None \<Rightarrow> u ''utf-8''))
   \<and> ((\<exists>x. detect_encoding_body e p = Inl x) \<longrightarrow> detect_encoding e p = u ''utf-8'')"
proof (intro conjI impI)
  assume "chardet_import e = None \<and> open_rb e p = Inr content \<and>
      chardet_detect e (take 10000 content) = (Some enc, conf) \<and> conf > 0.7"
  then show "detect_encoding e p = (if lower enc = u ''gb2312'' then u ''gb18030'' else lower enc)"
    by (simp add: detect_encoding_def detect_encoding_body_def Let_def)
next
  assume "chardet_import e = None \<and> open_rb e p = Inr content \<and>
      snd (chardet_detect e (take 10000 content)) \<le> 0.7"
  then show "detect_encoding e p =
           (case find (strictly_decodes e (take 10000 content))
                   [u ''utf-8'', u ''gbk'', u ''gb18030'', u ''big5''] of
              Some enc \<Rightarrow> enc | None \<Rightarrow> u ''utf-8'')"
    by (simp add: detect_encoding_def detect_encoding_body_def Let_def first_decodable_find
        fallback_encodings_def)
next
  assume "\<exists>x. detect_encoding_body e p = Inl x"
  then show "detect_encoding e p = u ''utf-8''"
    by (auto simp: detect_encoding_def)
qed

theorem detect_encoding_spec_witness:
  "detect_encoding env_gb (u ''a.html'') = u ''gb18030''
   \<and> detect_encoding env_big5 (u ''a.html'') = u ''gbk''
   \<and> detect_encoding env0 (u ''a.html'') = u ''utf-8''"
proof -
  have a: "chardet_import env_gb = None \<and> open_rb env_gb (u ''a.html'') = Inr [0xC4, 0xE3] \<and>
      chardet_detect env_gb (take 10000 [0xC4, 0xE3]) = (Some (u ''GB2312''), 0.99) \<and> (0.99::real) > 0.7"
    by (simp add: env_gb_def env0_def)
  have b: "chardet_import env_big5 = None \<and> open_rb env_big5 (u ''a.html'') = Inr [0xC4, 0xE3] \<and>
      snd (chardet_detect env_big5 (take 10000 [0xC4, 0xE3])) \<le> 0.7"
    by (simp add: env_big5_def env0_def)
  have c: "\<exists>x. detect_encoding_body env0 (u ''a.html'') = Inl x"
    by (simp add: detect_encoding_body_def env0_def)
  have l: "lower (u ''GB2312'') = u ''gb2312''"
    by (simp add: lower_def lower_cp_def u_def)
  have f: "find (strictly_decodes env_big5 (take 10000 [0xC4, 0xE3]))
                   [u ''utf-8'', u ''gbk'', u ''gb18030'', u ''big5''] = Some (u ''gbk'')"
    by (simp add: strictly_decodes_def env_big5_def env0_def u_def)
  from detect_encoding_spec [of env_gb "u ''a.html''" "[0xC4, 0xE3]" "u ''GB2312''" "0.99"] a l
  have 1: "detect_encoding env_gb (u ''a.html'') = u ''gb18030''" by simp
  from detect_encoding_spec [of env_big5 "u ''a.html''" "[0xC4, 0xE3]"] b f
  have 2: "detect_encoding env_big5 (u ''a.html'') = u ''gbk''" by simp
  from detect_encoding_spec [of env0 "u ''a.html''"] c
  have 3: "detect_encoding env0 (u ''a.html'') = u ''utf-8''" by blast
  from 1 2 3 show ?thesis by simp
qed

lemma read_fallbacks_first_success:
  "(case read_fallbacks e p encs of Inl x \<Rightarrow> [] | Inr c \<Rightarrow> c) =
     first_success (map (\<lambda>enc. read_text e p enc False) encs @ [read_text e p (u ''utf-8'') False])"
proof (induction encs)
  case Nil
  show ?case
    by (cases "open_rb e p"; cases "read_text e p (u ''utf-8'') False")
       (auto simp: read_text_def)
next
  case (Cons enc encs)
  then show ?case
    by (cases "read_text e p enc False") auto
qed

lemma first_success_all_fail:
  "\<forall>a \<in> set as. \<exists>x. a = Inl x \<Longrightarrow> first_success as = []"
  by (induction as rule: first_success.induct) auto

lemma read_html_file_unreadable:
  assumes "open_rb e p = Inl x"
  shows "read_html_file e p = []" and "read_best_effort e p = []"
proof -
  have rt: "\<And>enc strict. read_text e p enc strict = Inl x"
    using assms by (simp add: read_text_def)
  have fb: "(case read_fallbacks e p legacy_encodings of Inl x \<Rightarrow> [] | Inr c \<Rightarrow> c) = []"
    unfolding read_fallbacks_first_success
    by (rule first_success_all_fail) (auto simp: rt)
  show "read_html_file e p = []"
    using fb by (simp add: read_html_file_def read_html_file_body_def rt)
  show "read_best_effort e p = []"
    unfolding read_best_effort_def
    by (rule first_success_all_fail) (auto simp: read_attempts_def rt)
qed

text \<open>
  C6. \<open>read_html_file\<close> never raises and always returns a text: the strict UTF-8
  reading without its leading byte-order mark when that succeeds, else the lenient
  reading in the detected encoding (again without the mark), else the first lenient
  reading among the legacy encodings, else the lenient UTF-8 decoding of the bytes, and
  the empty text when every attempt fails. The only assumption is about the codec: a
  strict UTF-8 decoding that fails raises \<open>UnicodeDecodeError\<close>.
\<close>

theorem read_html_file_spec:
  assumes "\<And>content x. open_rb e p = Inr content \<Longrightarrow>
             decode e (u ''utf-8'') True content = Inl x \<Longrightarrow> x = UnicodeDecodeError"
  shows "read_html_file e p = read_best_effort e p"
proof (cases "open_rb e p")
  case (Inl x)
  then show ?thesis
    by (simp add: read_html_file_unreadable)
next
  case (Inr content)
  show ?thesis
  proof (cases "read_text e p (u ''utf-8'') True")
    case (Inr c)
    then show ?thesis
      by (simp add: read_html_file_def read_html_file_body_def read_best_effort_def
          read_attempts_def)
  next
    case (Inl x)
    with Inr assms have x: "x = UnicodeDecodeError"
      by (simp add: read_text_def)
    show ?thesis
    proof (cases "read_text e p (detect_encoding e p) False")
      case (Inr c)
      with Inl x show ?thesis
        by (simp add: read_html_file_def read_html_file_body_def read_best_effort_def
            read_attempts_def)
    next
      case il: (Inl y)
      have "read_html_file e p =
              (case read_fallbacks e p legacy_encodings of Inl x \<Rightarrow> [] | Inr c \<Rightarrow> c)"
        using Inl x il by (simp add: read_html_file_def read_html_file_body_def)
      also have "\<dots> = read_best_effort e p"
        unfolding read_fallbacks_first_success using Inl il
        by (simp add: read_best_effort_def read_attempts_def legacy_encodings_def)
      finally show ?thesis .
    qed
  qed
qed

theorem read_html_file_spec_witness:
  "read_html_file env_gbk_file (u ''a.html'') = [20320]
   \<and> read_best_effort env_gbk_file (u ''a.html'') = [20320]"
proof -
  have h: "\<And>content x. open_rb env_gbk_file (u ''a.html'') = Inr content \<Longrightarrow>
             decode env_gbk_file (u ''utf-8'') True content = Inl x \<Longrightarrow> x = UnicodeDecodeError"
    by (simp add: env_gbk_file_def env0_def)
  have d: "detect_encoding env_gbk_file (u ''a.html'') = u ''gbk''"
    by (simp add: detect_encoding_def detect_encoding_body_def env_gbk_file_def env0_def
        fallback_encodings_def u_def)
  have "read_best_effort env_gbk_file (u ''a.html'') = [20320]"
    by (simp add: read_best_effort_def read_attempts_def read_text_def d)
       (simp add: env_gbk_file_def env0_def strip_bom_def startswith_def bom_def u_def)
  with read_html_file_spec [of env_gbk_file "u ''a.html''", OF h] show ?thesis
    by simp
qed

section \<open>The asset folder: properties\<close>

lemma path_simps:
  "basename (u ''/d/Report.html'') = u ''Report.html''"
  "dirname (u ''/d/Report.html'') = u ''/d''"
  "splitext_root (u ''Report.html'') = u ''Report''"
  "basename (u ''/d/report.html'') = u ''report.html''"
  "dirname (u ''/d/report.html'') = u ''/d''"
  "splitext_root (u ''report.html'') = u ''report''"
  by (simp_all add: basename_def dirname_def splitext_root_def u_simps sep_def extsep_def Let_def)

text \<open>
  C8. The search of the parent directory lowercases the folder's name but not the base
  name of the page. For the page \<^verbatim>\<open>/d/Report.html\<close> and the folder
  \<^verbatim>\<open>/d/Report_images\<close>, whose name contains the base name up to case and contains
  \<^verbatim>\<open>image\<close>, the function returns \<^verbatim>\<open>None\<close>; for \<^verbatim>\<open>/d/report.html\<close> it returns the
  folder.
\<close>

theorem find_associated_files_folder_uppercase:
  "find_associated_files_folder env_report (u ''/d/Report.html'') = Inr None
   \<and> find_associated_files_folder env_report (u ''/d/report.html'') = Inr (Some (u ''/d/Report_images''))
   \<and> path_isdir env_report (join (u ''/d'') (u ''Report_images''))
   \<and> py_in (lower (u ''Report'')) (lower (u ''Report_images''))
   \<and> py_in (u ''image'') (lower (u ''Report_images''))"
proof -
  have l: "lower (u ''Report_images'') = u ''report_images''" "lower (u ''Report'') = u ''report''"
    "lower (u ''Report.html'') = u ''report.html''"
    by (simp_all add: lower_def lower_cp_def u_simps)
  have j: "join (u ''/d'') (u ''Report_images'') = u ''/d/Report_images''"
    "join (u ''/d'') (u ''Report.html'') = u ''/d/Report.html''"
    by (simp_all add: join_def startswith_def endswith_def sep_def u_simps)
  have a: "first_existing_dir env_report (u ''/d'') (possible_names (u ''Report'')) = None"
    by (simp add: possible_names_def env_report_def env0_def join_def startswith_def endswith_def
        sep_def u_simps)
  have b: "first_existing_dir env_report (u ''/d'') (possible_names (u ''report'')) = None"
    by (simp add: possible_names_def env_report_def env0_def join_def startswith_def endswith_def
        sep_def u_simps)
  have d: "path_isdir env_report (u ''/d/Report_images'')" "\<not> path_isdir env_report (u ''/d/Report.html'')"
    "listdir env_report (u ''/d'') = Inr [u ''Report.html'', u ''Report_images'']"
    by (simp_all add: env_report_def env0_def u_simps)
  have p1: "\<not> py_in (u ''Report'') (u ''report_images'')"
    by (simp add: startswith_def u_simps)
  have p2: "py_in (u ''report'') (u ''report_images'')" "py_in (u ''image'') (u ''report_images'')"
    by (simp_all add: startswith_def u_simps)
  have 1: "find_associated_files_folder env_report (u ''/d/Report.html'') = Inr None"
    by (simp add: find_associated_files_folder_def path_simps a d l j p1)
  have 2: "find_associated_files_folder env_report (u ''/d/report.html'') = Inr (Some (u ''/d/Report_images''))"
    by (simp add: find_associated_files_folder_def path_simps b d l j p2)
  from 1 2 d l j p2 show ?thesis by simp
qed

section \<open>Images: properties\<close>

text \<open>
  C10. When the \<^verbatim>\<open>src\<close> of an image is missing or empty, starts with \<^verbatim>\<open>data:\<close>, or
  has an empty base name once its query and fragment are cut off, \<open>_insert_image\<close>
  returns the document as it was: no picture, no placeholder.
\<close>

theorem insert_image_early_return:
  assumes "src = get_attr img_element (u ''src'') []"
    and "src = [] \<or> startswith src (u ''data:'') \<or> basename (clean src) = []"
  shows "insert_image e img_element doc html_path files_folder paragraph = doc"
  using assms by (auto simp: insert_image_def clean_def Let_def)

theorem insert_image_early_return_witness:
  "insert_image env0 img_no_src [] (u ''/d/a.html'') None None = []
   \<and> insert_image env0 img_data [] (u ''/d/a.html'') None None = []
   \<and> insert_image env0 img_dir [] (u ''/d/a.html'') None None = []"
proof -
  have 1: "get_attr img_no_src (u ''src'') [] = []"
    by (simp add: img_no_src_def u_simps)
  have 2: "startswith (get_attr img_data (u ''src'') []) (u ''data:'')"
    by (simp add: img_data_def startswith_def u_simps)
  have 3: "basename (clean (get_attr img_dir (u ''src'') [])) = []"
    by (simp add: img_dir_def clean_def basename_def sep_def u_simps)
  from insert_image_early_return [of _ img_no_src, OF refl] 1
       insert_image_early_return [of _ img_data, OF refl] 2
       insert_image_early_return [of _ img_dir, OF refl] 3
  show ?thesis by simp
qed

section \<open>Tables: properties\<close>

lemma fill_cells_row:
  assumes "i < length t" and "length (t ! i) = m" and "j + length cells \<le> m"
  shows "fill_cells m i j cells t =
           t[i := take j (t ! i) @ map get_text_strip cells @ drop (j + length cells) (t ! i)]"
  using assms
proof (induction cells arbitrary: j t)
  case Nil
  then show ?case by simp
next
  case (Cons c cells)
  let ?r = "t ! i"
  let ?t' = "set_cell t i j (get_text_strip c)"
  from Cons.prems have j: "j < m" "j < length ?r" by simp_all
  have r': "?t' ! i = ?r[j := get_text_strip c]" "length ?t' = length t"
    using Cons.prems by (simp_all add: set_cell_def)
  have "fill_cells m i j (c # cells) t = fill_cells m i (Suc j) cells ?t'"
    using j by simp
  also have "\<dots> = ?t'[i := take (Suc j) (?t' ! i) @ map get_text_strip cells
                        @ drop (Suc j + length cells) (?t' ! i)]"
    using Cons.prems r' by (intro Cons.IH) simp_all
  also have "take (Suc j) (?t' ! i) = take j ?r @ [get_text_strip c]"
    using j by (simp add: r' take_Suc_conv_app_nth)
  also have "drop (Suc j + length cells) (?t' ! i) = drop (j + length (c # cells)) ?r"
    by (simp add: r')
  finally show ?case
    by (simp add: set_cell_def)
qed

lemma fill_rows_grid:
  assumes "i + length rows \<le> length t"
    and "\<And>k. i \<le> k \<Longrightarrow> k < i + length rows \<Longrightarrow> t ! k = replicate m []"
    and "\<And>r. r \<in> set rows \<Longrightarrow> length (row_cells r) \<le> m"
  shows "fill_rows m i rows t = take i t @ map (padded_row m) rows @ drop (i + length rows) t"
  using assms
proof (induction rows arbitrary: i t)
  case Nil
  then show ?case by simp
next
  case (Cons r rows)
  let ?t' = "fill_cells m i 0 (row_cells r) t"
  have i: "i < length t" "t ! i = replicate m []" "length (row_cells r) \<le> m"
    using Cons.prems(1) Cons.prems(2) [of i] Cons.prems(3) [of r] by simp_all
  have t': "?t' = t[i := padded_row m r]"
    using i by (simp add: fill_cells_row padded_row_def)
  have "fill_rows m (Suc i) rows ?t' =
          take (Suc i) ?t' @ map (padded_row m) rows @ drop (Suc i + length rows) ?t'"
  proof (rule Cons.IH)
    show "Suc i + length rows \<le> length ?t'"
      using Cons.prems(1) by (simp add: t')
    show "?t' ! k = replicate m []" if "Suc i \<le> k" "k < Suc i + length rows" for k
      using that Cons.prems(2) [of k] by (simp add: t')
    show "length (row_cells r') \<le> m" if "r' \<in> set rows" for r'
      using that Cons.prems(3) by simp
  qed
  moreover have "take (Suc i) ?t' = take i t @ [padded_row m r]"
    using i by (simp add: t' take_Suc_conv_app_nth)
  moreover have "drop (Suc i + length rows) ?t' = drop (i + length (r # rows)) t"
    by (simp add: t')
  ultimately show ?case by simp
qed

lemma row_cells_le_max_cols:
  "r \<in> set rows \<Longrightarrow> length (row_cells r) \<le> max_cols_of rows"
  by (simp add: max_cols_of_def)

lemma convert_table_padded:
  assumes "find_all [u ''tr''] element = rows" and "rows \<noteq> []" and "0 < max_cols_of rows"
  shows "convert_table element doc = doc @ [Tbl (map (padded_row (max_cols_of rows)) rows)]"
proof -
  have "fill_rows (max_cols_of rows) 0 rows (add_table (length rows) (max_cols_of rows)) =
          take 0 (add_table (length rows) (max_cols_of rows))
          @ map (padded_row (max_cols_of rows)) rows
          @ drop (0 + length rows) (add_table (length rows) (max_cols_of rows))"
    by (rule fill_rows_grid) (simp_all add: add_table_def row_cells_le_max_cols)
  then show ?thesis
    using assms by (simp add: convert_table_def Let_def add_table_def)
qed

text \<open>
  C3. For a \<^verbatim>\<open>table\<close> element whose rows (all \<^verbatim>\<open>tr\<close> below it) have unequal numbers of
  cells (all \<^verbatim>\<open>td\<close> and \<^verbatim>\<open>th\<close> below the row), the converter appends one table to the
  document. It has as many rows as the element, each as wide as the largest number of
  cells of a row; a cell holds the stripped text of the cell of the same position, and is
  blank where the row has no such cell.
\<close>

theorem convert_table_grid:
  assumes rows: "rows = find_all [u ''tr''] element"
    and unequal: "r1 \<in> set rows" "r2 \<in> set rows" "length (row_cells r1) \<noteq> length (row_cells r2)"
    and grid: "grid = map (padded_row (max_cols_of rows)) rows"
  shows "convert_table element doc = doc @ [Tbl grid]
    \<and> length grid = length rows
    \<and> (\<forall>i < length rows. length (grid ! i) = max_cols_of rows)
    \<and> max_cols_of rows = Max (set (map (\<lambda>r. length (row_cells r)) rows))
    \<and> (\<forall>i < length rows. \<forall>j < max_cols_of rows.
           grid ! i ! j = (if j < length (row_cells (rows ! i))
                           then get_text_strip (row_cells (rows ! i) ! j) else []))"
proof -
  have ne: "rows \<noteq> []"
    using unequal by auto
  have "0 < length (row_cells r1) \<or> 0 < length (row_cells r2)"
    using unequal by linarith
  then have pos: "0 < max_cols_of rows"
    using row_cells_le_max_cols [OF unequal(1)] row_cells_le_max_cols [OF unequal(2)] by linarith
  have 1: "convert_table element doc = doc @ [Tbl grid]"
    using convert_table_padded [OF rows [symmetric] ne pos] grid by simp
  have 2: "length grid = length rows"
    by (simp add: grid)
  have 3: "\<forall>i < length rows. length (grid ! i) = max_cols_of rows"
    by (simp add: grid padded_row_def row_cells_le_max_cols)
  have 4: "max_cols_of rows = Max (set (map (\<lambda>r. length (row_cells r)) rows))"
    by (simp add: max_cols_of_def)
  have 5: "\<forall>i < length rows. \<forall>j < max_cols_of rows.
           grid ! i ! j = (if j < length (row_cells (rows ! i))
                           then get_text_strip (row_cells (rows ! i) ! j) else [])"
    by (simp add: grid padded_row_def nth_append)
  from 1 2 3 4 5 show ?thesis by blast
qed

lemma u_inj: "(u a = u b) = (a = b)"
  by (simp add: u_def inj_map_eq_map inj_of_char)

lemma strip_letters: "strip (u ''a'') = u ''a''" "strip (u ''b'') = u ''b''" "strip (u ''c'') = u ''c''"
  by (simp_all add: strip_def is_space_def u_simps)

lemma table_abc_rows: "find_all [u ''tr''] table_abc = [tr_ab, tr_c]"
  by (simp add: find_all_def table_abc_def tr_ab_def tr_c_def td_def is_named_def u_inj)

lemma table_abc_cells: "row_cells tr_ab = [td ''a'', td ''b'']" "row_cells tr_c = [td ''c'']"
  by (simp_all add: row_cells_def find_all_def tr_ab_def tr_c_def td_def is_named_def u_inj)

lemma td_text: "get_text_strip (td ''a'') = u ''a''" "get_text_strip (td ''b'') = u ''b''"
  "get_text_strip (td ''c'') = u ''c''"
  by (simp_all add: get_text_strip_def td_def strip_letters u_inj)

theorem convert_table_grid_witness:
  "convert_table table_abc [] = [Tbl [[u ''a'', u ''b''], [u ''c'', []]]]"
proof -
  have m: "max_cols_of [tr_ab, tr_c] = 2"
    by (simp add: max_cols_of_def table_abc_cells)
  have g: "[[u ''a'', u ''b''], [u ''c'', []]] = map (padded_row (max_cols_of [tr_ab, tr_c])) [tr_ab, tr_c]"
    by (simp add: m padded_row_def table_abc_cells td_text)
  have r: "[tr_ab, tr_c] = find_all [u ''tr''] table_abc"
    by (simp add: table_abc_rows)
  have ne: "length (row_cells tr_ab) \<noteq> length (row_cells tr_c)"
    by (simp add: table_abc_cells)
  from convert_table_grid [OF r _ _ ne g, of "[]"] show ?thesis
    by simp
qed

section \<open>Paragraphs: properties\<close>

lemma length_para_add_run [simp]: "length (para_add_run i r doc) = length doc"
  by (simp add: para_add_run_def split: block.splits)

lemma is_para_para_add_run [simp]:
  "k < length doc \<Longrightarrow> is_para (para_add_run i r doc ! k) = is_para (doc ! k)"
  by (cases "i = k") (auto simp: para_add_run_def split: block.splits)

lemma length_insert_image_para [simp]:
  "length (insert_image e img doc html_path ff (Some i)) = length doc"
  by (simp add: insert_image_def embed_image_def missing_image_def Let_def
      split: option.splits)

lemma is_para_insert_image_para [simp]:
  "k < length doc \<Longrightarrow>
     is_para (insert_image e img doc html_path ff (Some i) ! k) = is_para (doc ! k)"
  by (simp add: insert_image_def embed_image_def missing_image_def Let_def
      split: option.splits)






lemma strip_hello: "strip (u ''Hello '') = u ''Hello''" "strip (u ''World'') = u ''World''"
  "strip (u ''here'') = u ''here''"
  by (simp_all add: strip_def is_space_def u_simps)

lemma p_hello_text: "get_text_strip p_hello = u ''HelloWorld''"
  by (simp add: get_text_strip_def p_hello_def strip_hello u_inj) (simp add: u_simps)

text \<open>
  C9. The \<^verbatim>\<open>else\<close> of the loop over the children always runs, but the run it appends is
  not the full stripped text of the paragraph: the loop assigns the variable \<open>text\<close>
  for every string child. For \<^verbatim>\<open><p>Hello <b>World</b></p>\<close> the stripped text of the
  paragraph is \<^verbatim>\<open>HelloWorld\<close>, and the runs of the paragraph are \<^verbatim>\<open>Hello\<close>, a bold
  \<^verbatim>\<open>World\<close>, and a final \<^verbatim>\<open>Hello\<close>.
\<close>

theorem convert_p_reuses_text:
  "get_text_strip p_hello = u ''HelloWorld''
   \<and> convert_p env0 (u ''/d/a.html'') None p_hello [] =
       Inr [Para \<lparr>par_style = [], par_alignment = None,
                  par_runs = [new_run (u ''Hello''), (new_run (u ''World''))\<lparr>run_bold := True\<rparr>,
                              new_run (u ''Hello'')]\<rparr>]
   \<and> u ''Hello'' \<noteq> u ''HelloWorld''"
proof -
  have b: "get_text_strip (Tag (u ''b'') [] [NavigableString (u ''World'')]) = u ''World''"
    by (simp add: get_text_strip_def strip_hello u_inj)
  have c: "p_children env0 (u ''/d/a.html'') None 0 (children p_hello)
             (add_paragraph [] [] [], u ''HelloWorld'') =
           Inr ([Para \<lparr>par_style = [], par_alignment = None,
                  par_runs = [new_run (u ''Hello''), (new_run (u ''World''))\<lparr>run_bold := True\<rparr>]\<rparr>],
                u ''Hello'')"
    by (simp add: p_hello_def p_child_def Let_def b strip_hello u_inj add_paragraph_def
        new_paragraph_def para_add_run_def) (simp add: u_simps)
  have "convert_p env0 (u ''/d/a.html'') None p_hello [] =
       Inr [Para \<lparr>par_style = [], par_alignment = None,
                  par_runs = [new_run (u ''Hello''), (new_run (u ''World''))\<lparr>run_bold := True\<rparr>,
                              new_run (u ''Hello'')]\<rparr>]"
    by (simp add: convert_p_def Let_def p_hello_text c para_add_run_def) (simp add: u_simps)
  then show ?thesis
    by (simp add: p_hello_text u_inj)
qed

text \<open>
  When the library refuses a string as the colour of a run, a paragraph with a link
  raises, and the conversion of the file fails.
\<close>

lemma convert_p_link_refused:
  "convert_p (env0\<lparr>set_rgb := (\<lambda>c. Some ValueError)\<rparr>) (u ''/d/a.html'') None p_link [] =
     Inl ValueError"
proof -
  have "get_text_strip p_link = u ''here''"
    by (simp add: get_text_strip_def p_link_def strip_hello u_inj)
  then show ?thesis
    by (simp add: convert_p_def Let_def p_link_def p_child_def u_inj env0_def) (simp add: u_simps)
qed

section \<open>The run: properties\<close>

lemma after_jobs_Nil [simp]: "after_jobs e current_dir out [] self = self"
  by (simp add: after_jobs_def)






































section \<open>The result of a conversion: properties\<close>




section \<open>The run: counters and failures\<close>






section \<open>Missing images: properties\<close>

lemma keeps_texts_refl [simp]: "keeps_texts doc doc"
  by (simp add: keeps_texts_def)

lemma keeps_texts_trans: "keeps_texts a b \<Longrightarrow> keeps_texts b c \<Longrightarrow> keeps_texts a c"
  by (auto simp: keeps_texts_def)

lemma document_texts_append [simp]:
  "document_texts (a @ b) = document_texts a @ document_texts b"
  by (simp add: document_texts_def)

lemma in_document_texts:
  "x \<in> set (document_texts doc) \<longleftrightarrow> (\<exists>k < length doc. x \<in> set (block_texts (doc ! k)))"
proof
  assume "x \<in> set (document_texts doc)"
  then obtain b where "b \<in> set doc" "x \<in> set (block_texts b)"
    by (auto simp: document_texts_def)
  then show "\<exists>k < length doc. x \<in> set (block_texts (doc ! k))"
    by (metis in_set_conv_nth)
next
  assume "\<exists>k < length doc. x \<in> set (block_texts (doc ! k))"
  then obtain k where "k < length doc" "x \<in> set (block_texts (doc ! k))" by blast
  then show "x \<in> set (document_texts doc)"
    unfolding document_texts_def using nth_mem by fastforce
qed

lemma keeps_texts_update:
  assumes "i < length doc \<Longrightarrow> set (block_texts (doc ! i)) \<subseteq> set (block_texts b)"
  shows "keeps_texts doc (doc[i := b])"
  unfolding keeps_texts_def
proof
  fix x assume "x \<in> set (document_texts doc)"
  then obtain k where k: "k < length doc" "x \<in> set (block_texts (doc ! k))"
    unfolding in_document_texts by blast
  have "x \<in> set (block_texts (doc[i := b] ! k))"
  proof (cases "k = i")
    case True
    with k assms show ?thesis by auto
  next
    case False
    with k show ?thesis by simp
  qed
  with k(1) show "x \<in> set (document_texts (doc[i := b]))"
    unfolding in_document_texts by auto
qed

lemma keeps_texts_para_add_run [simp]: "keeps_texts doc (para_add_run i r doc)"
proof (cases "i < length doc")
  case True
  show ?thesis
  proof (cases "doc ! i")
    case (Para p)
    have "keeps_texts doc (doc[i := Para (p\<lparr>par_runs := par_runs p @ [r]\<rparr>)])"
      by (rule keeps_texts_update) (auto simp: Para)
    with True Para show ?thesis
      by (simp add: para_add_run_def)
  next
    case (Tbl t)
    with True show ?thesis by (simp add: para_add_run_def)
  qed
next
  case False
  then show ?thesis by (simp add: para_add_run_def)
qed

lemma keeps_texts_para_set_alignment [simp]: "keeps_texts doc (para_set_alignment i a doc)"
proof (cases "i < length doc")
  case True
  show ?thesis
  proof (cases "doc ! i")
    case (Para p)
    have "keeps_texts doc (doc[i := Para (p\<lparr>par_alignment := Some a\<rparr>)])"
      by (rule keeps_texts_update) (auto simp: Para)
    with True Para show ?thesis
      by (simp add: para_set_alignment_def)
  next
    case (Tbl t)
    with True show ?thesis by (simp add: para_set_alignment_def)
  qed
next
  case False
  then show ?thesis by (simp add: para_set_alignment_def)
qed

lemma keeps_texts_add_paragraph [simp]: "keeps_texts doc (add_paragraph t style doc)"
  by (simp add: keeps_texts_def add_paragraph_def)

lemma keeps_texts_step:
  "keeps_texts b c \<Longrightarrow> keeps_texts a b \<Longrightarrow> keeps_texts a c"
  by (rule keeps_texts_trans)

lemma keeps_texts_missing_image [simp]: "keeps_texts doc (missing_image alt_text doc par)"
  by (cases par) (simp_all add: missing_image_def)

lemma keeps_texts_embed_image [simp]: "keeps_texts doc (embed_image e ip alt_text doc par)"
proof (cases par)
  case None
  have 1: "keeps_texts doc (para_set_alignment (length doc) 1 (add_paragraph [] [] doc))"
    by (rule keeps_texts_trans [OF keeps_texts_add_paragraph keeps_texts_para_set_alignment])
  have 2: "keeps_texts doc (para_add_run (length doc) r
             (para_set_alignment (length doc) 1 (add_paragraph [] [] doc)))" for r
    by (rule keeps_texts_trans [OF 1 keeps_texts_para_add_run])
  have 3: "keeps_texts doc (add_paragraph t [] (para_add_run (length doc) r
             (para_set_alignment (length doc) 1 (add_paragraph [] [] doc))))" for r t
    by (rule keeps_texts_trans [OF 2 keeps_texts_add_paragraph])
  from None 2 3 show ?thesis
    by (simp add: embed_image_def Let_def split: option.splits)
next
  case (Some i)
  have "keeps_texts doc (para_add_run i r2 (para_add_run i r1 doc))" for r1 r2
    by (rule keeps_texts_trans [OF keeps_texts_para_add_run keeps_texts_para_add_run])
  with Some show ?thesis
    by (simp add: embed_image_def split: option.splits)
qed

lemma keeps_texts_insert_image [simp]:
  "keeps_texts doc (insert_image e img doc html_path ff par)"
  by (simp add: insert_image_def Let_def split: option.splits)




lemma keeps_texts_convert_heading [simp]: "keeps_texts doc (convert_heading h element doc)"
proof -
  have "keeps_texts doc (add_paragraph t2 s2 (add_paragraph t1 s1 doc))" for t1 s1 t2 s2
    by (rule keeps_texts_trans [OF keeps_texts_add_paragraph keeps_texts_add_paragraph])
  then show ?thesis
    by (simp add: convert_heading_def Let_def split: heading_outcome.splits)
qed

lemma keeps_texts_add_list_items [simp]: "keeps_texts doc (add_list_items style items doc)"
proof (induction items arbitrary: doc)
  case Nil
  show ?case by simp
next
  case (Cons li items)
  let ?d = "if get_text_strip li \<noteq> []
       then para_add_run (length doc) (new_run (get_text_strip li)) (add_paragraph [] style doc)
       else doc"
  have "keeps_texts doc (para_add_run (length doc) r (add_paragraph [] style doc))" for r
    by (rule keeps_texts_trans [OF keeps_texts_add_paragraph keeps_texts_para_add_run])
  then have 1: "keeps_texts doc ?d"
    by simp
  have 2: "keeps_texts ?d (add_list_items style items ?d)"
    by (rule Cons.IH)
  have "add_list_items style (li # items) doc = add_list_items style items ?d"
    by (simp add: Let_def)
  with keeps_texts_trans [OF 1 2] show ?case
    by simp
qed

lemma keeps_texts_convert_table [simp]: "keeps_texts doc (convert_table element doc)"
  by (simp add: convert_table_def Let_def keeps_texts_def)

lemma keeps_texts_convert_br [simp]: "keeps_texts doc (convert_br doc)"
  by (simp add: convert_br_def)




lemma keeps_texts_add_lines [simp]: "keeps_texts doc (add_lines ls doc)"
proof (induction ls arbitrary: doc)
  case Nil
  show ?case by simp
next
  case (Cons l ls)
  let ?d = "if strip l \<noteq> [] then add_paragraph (take 500 (strip l)) [] doc else doc"
  have 1: "keeps_texts doc ?d"
    by simp
  have 2: "keeps_texts ?d (add_lines ls ?d)"
    by (rule Cons.IH)
  have "add_lines (l # ls) doc = add_lines ls ?d"
    by simp
  with keeps_texts_trans [OF 1 2] show ?case
    by simp
qed














end
